theory Spec2Isabelle
  imports Main "HOL-Library.Sublist"
begin

section \<open>Python byte strings\<close>

text \<open>
  The utilities work on Python 2 byte strings, modelled as \<^typ>\<open>string\<close>.
  \<open>lower\<close> maps the ASCII capitals to small letters and leaves every other byte,
  \<open>strip\<close> removes the six ASCII whitespace bytes from both ends, \<open>s.find(sub)\<close>
  is the index of the first occurrence or \<open>-1\<close>, and a slice clamps its bounds
  (a negative bound counts from the end).
\<close>

definition lower_char :: "char \<Rightarrow> char" where
  "lower_char c =
     (let n = (of_char c :: nat) in if 65 \<le> n \<and> n \<le> 90 then char_of (n + 32) else c)"

definition lower :: "string \<Rightarrow> string" where
  "lower s = map lower_char s"

definition is_space :: "char \<Rightarrow> bool" where
  "is_space c = (c \<in> set [CHR '' '', CHR 0x09, CHR 0x0A, CHR 0x0B, CHR 0x0C, CHR 0x0D])"

definition strip :: "string \<Rightarrow> string" where
  "strip s = rev (dropWhile is_space (rev (dropWhile is_space s)))"

fun find_sub :: "string \<Rightarrow> string \<Rightarrow> nat option" where
  "find_sub sub [] = (if sub = [] then Some 0 else None)"
| "find_sub sub (c # cs) =
     (if prefix sub (c # cs) then Some 0 else map_option Suc (find_sub sub cs))"

definition str_find :: "string \<Rightarrow> string \<Rightarrow> int" where
  "str_find s sub = (case find_sub sub s of None \<Rightarrow> - 1 | Some i \<Rightarrow> int i)"

definition contains :: "string \<Rightarrow> string \<Rightarrow> bool" where
  "contains sub s = (find_sub sub s \<noteq> None)"

definition clamp_index :: "string \<Rightarrow> int \<Rightarrow> nat" where
  "clamp_index s i =
     (let n = int (length s); j = (if i < 0 then i + n else i)
      in nat (max 0 (min n j)))"

definition slice :: "string \<Rightarrow> int \<Rightarrow> int \<Rightarrow> string" where
  "slice s a b = take (clamp_index s b - clamp_index s a) (drop (clamp_index s a) s)"

definition slice_from :: "string \<Rightarrow> int \<Rightarrow> string" where
  "slice_from s a = drop (clamp_index s a) s"

section \<open>Issue designators (utils.py)\<close>

text \<open>
  \<open>parse_issue_tag\<close> receives a string or \<open>None\<close>; the test \<open>if issue_tag_content\<close>
  is false for both \<open>None\<close> and the empty string.
\<close>

definition parse_issue_tag ::
  "string option \<Rightarrow> string option \<times> string option \<times> string option" where
  "parse_issue_tag issue_tag_content =
     (case issue_tag_content of
        None \<Rightarrow> (None, None, None)
      | Some content \<Rightarrow>
          if content = [] then (None, None, None)
          else
            let lower_issue = lower content in
            if contains ''sup'' lower_issue then
              let number0 = strip (slice lower_issue 0 (str_find lower_issue ''sup''));
                  number = (if number0 = [] then None else Some number0);
                  label0 = slice_from content (str_find lower_issue ''sup'');
                  suppl_label =
                    (if contains '' '' label0 then slice label0 0 (str_find label0 '' '')
                     else label0);
                  suppl0 = strip (slice_from content
                             (str_find content suppl_label + int (length suppl_label)));
                  suppl = (if suppl0 = [] then None else Some suppl0)
              in (number, Some suppl_label, suppl)
            else (Some content, None, None))"

text \<open>
  The truth value Python gives a string or \<open>None\<close>: \<open>None\<close> and the empty string
  are false.
\<close>

definition truthy :: "string option \<Rightarrow> bool" where
  "truthy v = (case v of None \<Rightarrow> False | Some s \<Rightarrow> s \<noteq> [])"

definition supplement_type ::
  "string option \<Rightarrow> string option \<Rightarrow> string option \<Rightarrow> string option \<times> string option" where
  "supplement_type volume number suppl =
     (if truthy number then (None, suppl) else (suppl, None))"

section \<open>Exceptions and decimal numerals\<close>

text \<open>
  An exception is a value: its class and, where the source gives one, its message.
  \<open>OtherError\<close> stands for any exception of another class that a collaborating
  system raises.
\<close>

datatype exn =
    TypeError string
  | ValueError string
  | KeyError string
  | AttributeError string
  | UnmetPrecondition
  | NotImplementedError
  | OtherError string

definition is_digit :: "char \<Rightarrow> bool" where
  "is_digit c = (48 \<le> (of_char c :: nat) \<and> (of_char c :: nat) \<le> 57)"

definition digit_value :: "char \<Rightarrow> nat" where
  "digit_value c = (of_char c :: nat) - 48"

definition digit_char :: "nat \<Rightarrow> char" where
  "digit_char d = char_of (48 + d)"

text \<open>\<open>str(n)\<close> for a natural number and for an integer.\<close>

function str_nat :: "nat \<Rightarrow> string" where
  "str_nat n = (if n < 10 then [digit_char n] else str_nat (n div 10) @ [digit_char (n mod 10)])"
  by pat_completeness auto
termination
  by (relation "measure id") auto

declare str_nat.simps [simp del]

definition str_int :: "int \<Rightarrow> string" where
  "str_int i = (if i < 0 then CHR ''-'' # str_nat (nat (- i)) else str_nat (nat i))"

text \<open>
  \<open>int(s)\<close> on a byte string: surrounding whitespace is dropped, one sign is
  allowed, and what remains must be a non-empty run of decimal digits; anything else is
  a \<open>ValueError\<close>.
\<close>

definition digits_value :: "string \<Rightarrow> nat" where
  "digits_value ds = foldl (\<lambda>acc c. 10 * acc + digit_value c) 0 ds"

definition invalid_literal :: exn where
  "invalid_literal = ValueError ''invalid literal for int() with base 10''"

definition py_int :: "string \<Rightarrow> exn + int" where
  "py_int s =
     (let t = strip s;
          (neg, ds) = (case t of
                         c # r \<Rightarrow> if c = CHR ''-'' then (True, r)
                                  else if c = CHR ''+'' then (False, r) else (False, t)
                       | [] \<Rightarrow> (False, []))
      in if ds = [] \<or> \<not> list_all is_digit ds then Inl invalid_literal
         else Inr (if neg then - int (digits_value ds) else int (digits_value ds)))"

section \<open>ISSN validation (utils.py)\<close>

text \<open>The values \<open>validate_issn\<close> may be handed: a byte string or something else.\<close>

datatype pyval = PyStr string | PyInt int | PyNone

text \<open>
  The loop of \<open>calc_check_digit_issn\<close>: the running total \<open>tot\<close> and the index \<open>i\<close> of
  \<open>enumerate\<close> are carried along; \<open>int(v)\<close> on one character raises for a
  character that is not a digit.
\<close>

fun weighted_total :: "int \<Rightarrow> int \<Rightarrow> string \<Rightarrow> exn + int" where
  "weighted_total tot i [] = Inr tot"
| "weighted_total tot i (v # vs) =
     (case py_int [v] of
        Inl e \<Rightarrow> Inl e
      | Inr d \<Rightarrow> weighted_total (tot + (8 - i) * d) (i + 1) vs)"

definition calc_check_digit_issn :: "string \<Rightarrow> exn + string" where
  "calc_check_digit_issn issn =
     (let lissn = filter (\<lambda>c. c \<noteq> CHR ''-'') issn in
      case weighted_total 0 0 (butlast lissn) of
        Inl e \<Rightarrow> Inl e
      | Inr tot \<Rightarrow>
          let remainder = tot mod 11;
              check_digit = (if remainder = 0 then 0 else 11 - remainder)
          in Inr (if check_digit = 10 then ''X'' else str_int check_digit))"

definition validate_issn :: "pyval \<Rightarrow> exn + string" where
  "validate_issn v =
     (case v of
        PyStr issn \<Rightarrow>
          if length issn \<noteq> 9 then Inl (ValueError ''Invalid length'')
          else if CHR ''-'' \<notin> set issn then Inl (ValueError ''Invalid format'')
          else (case calc_check_digit_issn issn of
                  Inl e \<Rightarrow> Inl e
                | Inr cd \<Rightarrow>
                    if cd \<noteq> [last issn] then Inl (ValueError ''Invaid ISSN'')
                    else Inr issn)
      | _ \<Rightarrow> Inl (TypeError ''Invalid type''))"

text \<open>
  \<open>is_valid_issn\<close> catches \<open>ValueError\<close> and \<open>TypeError\<close> only; \<open>bool\<close> of
  the returned string is true when it is not empty.
\<close>

definition is_valid_issn :: "pyval \<Rightarrow> exn + bool" where
  "is_valid_issn v =
     (case validate_issn v of
        Inr issn \<Rightarrow> Inr (issn \<noteq> [])
      | Inl (ValueError _) \<Rightarrow> Inr False
      | Inl (TypeError _) \<Rightarrow> Inr False
      | Inl e \<Rightarrow> Inl e)"

text \<open>
  The check digit as the specification words it, on the characters \<open>ds\<close> it sums:
  the weighted sum of \<open>(8 - i) * digit\<close>, modulo 11, 0 for remainder 0 and otherwise
  11 minus the remainder, the value 10 written \<open>X\<close>.
\<close>

definition spec_check_digit :: "string \<Rightarrow> string" where
  "spec_check_digit ds =
     (let tot = sum_list (map (\<lambda>i. (8 - int i) * int (digit_value (ds ! i))) [0..<length ds]);
          remainder = tot mod 11;
          check_digit = (if remainder = 0 then 0 else 11 - remainder)
      in if check_digit = 10 then ''X'' else str_int check_digit)"

section \<open>Terminating child processes (balaio.py)\<close>

text \<open>
  A child process handle, as \<open>terminate\<close> sees it: its pid, and what the \<open>k\<close>-th
  call of \<open>poll()\<close> after the terminate request returns, \<open>None\<close> while the
  child runs and its exit status once it has exited. What \<open>terminate\<close> does to the
  children is the list of its calls, in order; \<open>Sleep\<close> is one \<open>time.sleep(0.5)\<close>.
\<close>

record popen =
  pid :: nat
  poll :: "nat \<Rightarrow> int option"

datatype proc_event = Terminate nat | Sleep | Kill nat

text \<open>\<open>not p.poll()\<close>: true for \<open>None\<close> and for the exit status 0.\<close>

definition not_poll :: "int option \<Rightarrow> bool" where
  "not_poll r = (case r of None \<Rightarrow> True | Some status \<Rightarrow> status = 0)"

text \<open>
  The \<open>for t_try in range(10)\<close> loop with its \<open>else\<close> branch: \<open>k\<close> polls have been
  made and \<open>n\<close> tries are left; the loop that runs out of tries kills the child, the
  \<open>break\<close> leaves without killing.
\<close>

fun wait_tries :: "popen \<Rightarrow> nat \<Rightarrow> nat \<Rightarrow> proc_event list" where
  "wait_tries p k 0 = [Kill (pid p)]"
| "wait_tries p k (Suc n) =
     (if not_poll (poll p k) then Sleep # wait_tries p (Suc k) n else [])"

definition terminate_child :: "popen \<Rightarrow> proc_event list" where
  "terminate_child p = Terminate (pid p) # wait_tries p 0 10"

definition terminate :: "popen list \<Rightarrow> proc_event list" where
  "terminate procs = concat (map terminate_child (rev procs))"

section \<open>Attempts and the validation stage (vpipes.py)\<close>

text \<open>
  An attempt carries the fields the code reads and writes. \<open>is_valid\<close> is the
  tri-state flag of the data model: unset, false or true.
\<close>

record attempt =
  attempt_id :: nat
  filepath :: string
  aid :: string
  is_valid :: "bool option"
  proceed_to_checkout :: bool
  pending_checkout :: bool
  queued_checkout :: bool
  checkout_started_at :: "nat option"

text \<open>
  A stage receives a bare attempt or the 4-tuple of attempt, package analyzer, journal
  and issue data, and datastore session; the last three are opaque here.
\<close>

datatype item = Bare attempt | Tuple4 attempt string string nat

definition attempt_is_valid :: "item \<Rightarrow> exn + unit" where
  "attempt_is_valid data =
     (let attempt = (case data of Tuple4 a _ _ _ \<Rightarrow> a | Bare a \<Rightarrow> a)
      in if is_valid attempt \<noteq> Some True then Inl UnmetPrecondition else Inr ())"

text \<open>
  What a stage does besides returning: its calls to \<open>validate\<close>, the savepoint it
  opens, what it tells the notifier (description, status, label) and a rollback.
\<close>

datatype stage_event =
    Validate_called item
  | Savepoint_opened
  | Told attempt nat string string string
  | Savepoint_rolled_back

text \<open>
  A concrete stage: its \<open>validate\<close>, the outcome of the notifier's \<open>tell\<close>
  (\<open>None\<close> when it returns) and the stage's label.
\<close>

record stage =
  validate :: "item \<Rightarrow> exn + (string \<times> string)"
  tell :: "attempt \<Rightarrow> nat \<Rightarrow> string \<Rightarrow> string \<Rightarrow> string \<Rightarrow> exn option"
  stage_label :: string

text \<open>
  Modelled from the spec: the \<open>precondition\<close> decorator of the plumber library,
  which is not part of the sources. When the precondition raises
  \<open>UnmetPrecondition\<close> the decorated function is skipped and the item is returned
  unchanged; any other exception propagates; otherwise the function runs.
\<close>

definition precondition ::
  "(item \<Rightarrow> exn + unit) \<Rightarrow> (item \<Rightarrow> (exn + item) \<times> stage_event list) \<Rightarrow>
   item \<Rightarrow> (exn + item) \<times> stage_event list" where
  "precondition precond f data =
     (case precond data of
        Inl UnmetPrecondition \<Rightarrow> (Inr data, [])
      | Inl e \<Rightarrow> (Inl e, [])
      | Inr _ \<Rightarrow> f data)"

text \<open>
  The body of \<open>ValidationPipe.transform\<close>. A bare attempt cannot be indexed, so
  \<open>item[0]\<close> raises a \<open>TypeError\<close>.
\<close>

definition transform_body :: "stage \<Rightarrow> item \<Rightarrow> (exn + item) \<times> stage_event list" where
  "transform_body self item =
     (case item of
        Bare _ \<Rightarrow> (Inl (TypeError ''object does not support indexing''), [])
      | Tuple4 attempt _ _ db_session \<Rightarrow>
          (case validate self item of
             Inl e \<Rightarrow> (Inl e, [Validate_called item])
           | Inr (result_status, result_description) \<Rightarrow>
               (case tell self attempt db_session result_description result_status
                       (stage_label self) of
                  Some e \<Rightarrow>
                    (Inl e, [Validate_called item, Savepoint_opened,
                             Told attempt db_session result_description result_status
                               (stage_label self),
                             Savepoint_rolled_back])
                | None \<Rightarrow>
                    (Inr item, [Validate_called item, Savepoint_opened,
                                Told attempt db_session result_description result_status
                                  (stage_label self)]))))"

definition transform :: "stage \<Rightarrow> item \<Rightarrow> (exn + item) \<times> stage_event list" where
  "transform self = precondition attempt_is_valid (transform_body self)"

section \<open>Checkout (checkout.py)\<close>

definition FILES_EXTENSION :: "string list" where
  "FILES_EXTENSION = [''xml'', ''pdf'']"

definition IMAGES_EXTENSION :: "string list" where
  "IMAGES_EXTENSION = [''tif'', ''eps'']"

definition NAME_ZIP_FILE :: string where
  "NAME_ZIP_FILE = ''images.zip''"

definition STATIC_PATH :: string where
  "STATIC_PATH = ''articles''"

text \<open>An entry of a package archive: its name and what \<open>read()\<close> returns.\<close>

record static_file =
  name :: string
  content :: string

text \<open>The payload posted to the editorial manager.\<close>

record front_data =
  front :: string
  xml_url :: string
  pdf_url :: string
  images_url :: string

text \<open>
  What \<open>checkout.py\<close> finds around it at run time, as parameters. The collaborating
  systems, which are not part of the sources: the entries of the package at a file path
  with a given extension (\<open>PackageAnalyzer(filepath).get_fps(ext)\<close>), the static
  server's \<open>send\<close> of a content to a path, the front the metadata pipeline extracts
  from the package at a file path, the manager's \<open>articles.post\<close> (\<open>None\<close> when
  it returns), and the clock. And the attributes \<open>get_static_path\<close> and
  \<open>zip_files\<close> of the module \<open>utils\<close>, each \<open>None\<close> when the module does not
  define it: reading such an attribute raises an \<open>AttributeError\<close>.
\<close>

record boundary =
  get_fps :: "string \<Rightarrow> string \<Rightarrow> static_file list"
  send :: "string \<Rightarrow> string \<Rightarrow> exn + string"
  get_static_path :: "(string \<Rightarrow> string \<Rightarrow> string \<Rightarrow> string) option"
  zip_files :: "((string \<rightharpoonup> string) \<Rightarrow> string) option"
  extract_front :: "string \<Rightarrow> exn + string"
  articles_post :: "front_data \<Rightarrow> exn option"
  now :: nat

text \<open>
  The module \<open>utils\<close> of the sources, \<open>src/balaio/utils.py\<close>, defines neither
  \<open>get_static_path\<close> nor \<open>zip_files\<close>.
\<close>

definition with_source_utils :: "boundary \<Rightarrow> boundary" where
  "with_source_utils b = b\<lparr>get_static_path := None, zip_files := None\<rparr>"

definition utils_attr :: "'f option \<Rightarrow> string \<Rightarrow> exn + 'f" where
  "utils_attr f attr = (case f of None \<Rightarrow> Inl (AttributeError attr) | Some g \<Rightarrow> Inr g)"

definition get_static :: "boundary \<Rightarrow> attempt \<Rightarrow> string \<Rightarrow> static_file list" where
  "get_static b attempt ext = get_fps b (filepath attempt) ext"

text \<open>
  The inner loop over the entries of one extension: each is sent, and its URI
  overwrites \<open>uri_dict[ext]\<close>. The arguments of \<open>static.send\<close> are evaluated
  first, so \<open>utils.get_static_path\<close> is read before anything is sent. The state is
  the dictionary and the list of (content, path) pairs the server has accepted so far.
\<close>

fun send_entries ::
  "boundary \<Rightarrow> attempt \<Rightarrow> string \<Rightarrow> static_file list \<Rightarrow>
   (string \<rightharpoonup> string) \<times> (string \<times> string) list \<Rightarrow>
   exn + (string \<rightharpoonup> string) \<times> (string \<times> string) list" where
  "send_entries b attempt ext [] st = Inr st"
| "send_entries b attempt ext (static_file # rest) (uri_dict, sent) =
     (case utils_attr (get_static_path b) ''get_static_path'' of
        Inl e \<Rightarrow> Inl e
      | Inr static_path \<Rightarrow>
          let path = static_path STATIC_PATH (aid attempt) (name static_file) in
          case send b (content static_file) path of
            Inl e \<Rightarrow> Inl e
          | Inr uri \<Rightarrow>
              send_entries b attempt ext rest
                (uri_dict(ext \<mapsto> uri), sent @ [(content static_file, path)]))"

fun send_kinds ::
  "boundary \<Rightarrow> attempt \<Rightarrow> string list \<Rightarrow>
   (string \<rightharpoonup> string) \<times> (string \<times> string) list \<Rightarrow>
   exn + (string \<rightharpoonup> string) \<times> (string \<times> string) list" where
  "send_kinds b attempt [] st = Inr st"
| "send_kinds b attempt (ext # exts) st =
     (case send_entries b attempt ext (get_static b attempt ext) st of
        Inl e \<Rightarrow> Inl e
      | Inr st' \<Rightarrow> send_kinds b attempt exts st')"

text \<open>The image loop: \<open>dict_img[static_file.name] = static_file.read()\<close>.\<close>

definition collect_images ::
  "boundary \<Rightarrow> attempt \<Rightarrow> string list \<Rightarrow> (string \<rightharpoonup> string)" where
  "collect_images b attempt exts =
     foldl (\<lambda>dict_img static_file. dict_img(name static_file \<mapsto> content static_file))
       Map.empty (concat (map (get_static b attempt) exts))"

definition upload_static_files ::
  "boundary \<Rightarrow> attempt \<Rightarrow> exn + (string \<rightharpoonup> string) \<times> (string \<times> string) list" where
  "upload_static_files b attempt =
     (case send_kinds b attempt FILES_EXTENSION (Map.empty, []) of
        Inl e \<Rightarrow> Inl e
      | Inr (uri_dict, sent) \<Rightarrow>
          let dict_img = collect_images b attempt IMAGES_EXTENSION in
          case utils_attr (zip_files b) ''zip_files'' of
            Inl e \<Rightarrow> Inl e
          | Inr zip_dict \<Rightarrow>
              let comp_img = zip_dict dict_img in
              case utils_attr (get_static_path b) ''get_static_path'' of
                Inl e \<Rightarrow> Inl e
              | Inr static_path \<Rightarrow>
                  let path = static_path STATIC_PATH (aid attempt) NAME_ZIP_FILE in
                  case send b comp_img path of
                    Inl e \<Rightarrow> Inl e
                  | Inr uri \<Rightarrow>
                      Inr (uri_dict(''img'' \<mapsto> uri), sent @ [(comp_img, path)]))"

text \<open>A missing key of \<open>uri_dict\<close> is a \<open>KeyError\<close>.\<close>

definition getitem :: "(string \<rightharpoonup> string) \<Rightarrow> string \<Rightarrow> exn + string" where
  "getitem d k = (case d k of None \<Rightarrow> Inl (KeyError k) | Some v \<Rightarrow> Inr v)"

definition upload_meta_front ::
  "boundary \<Rightarrow> attempt \<Rightarrow> (string \<rightharpoonup> string) \<Rightarrow> exn option" where
  "upload_meta_front b attempt uri_dict =
     (case extract_front b (filepath attempt) of
        Inl e \<Rightarrow> Some e
      | Inr fr \<Rightarrow>
     (case getitem uri_dict ''xml'' of
        Inl e \<Rightarrow> Some e
      | Inr x \<Rightarrow>
     (case getitem uri_dict ''pdf'' of
        Inl e \<Rightarrow> Some e
      | Inr p \<Rightarrow>
     (case getitem uri_dict ''img'' of
        Inl e \<Rightarrow> Some e
      | Inr i \<Rightarrow>
          articles_post b \<lparr>front = fr, xml_url = x, pdf_url = p, images_url = i\<rparr>))))"

text \<open>
  \<open>checkout_procedure\<close> mutates the attempt in place, so the attempt as it is left
  is returned with the exception, if any: the start time is set before anything can
  raise, \<open>queued_checkout\<close> is cleared only when both uploads returned.
\<close>

definition checkout_procedure :: "boundary \<Rightarrow> attempt \<Rightarrow> exn option \<times> attempt" where
  "checkout_procedure b attempt =
     (let started = attempt\<lparr>checkout_started_at := Some (now b)\<rparr> in
      case upload_static_files b started of
        Inl e \<Rightarrow> (Some e, started)
      | Inr (uri_dict, _) \<Rightarrow>
          (case upload_meta_front b started uri_dict of
             Some e \<Rightarrow> (Some e, started)
           | None \<Rightarrow> (None, started\<lparr>queued_checkout := False\<rparr>)))"

text \<open>
  The datastore under the \<open>transaction\<close> package: the rows as last committed and the
  rows as the open unit of work holds them. A commit makes the unit of work's rows the
  committed ones, an abort throws the unit of work's changes away.
\<close>

record datastore =
  committed :: "attempt list"
  session :: "attempt list"

definition commit :: "datastore \<Rightarrow> datastore" where
  "commit db = db\<lparr>committed := session db\<rparr>"

definition abort :: "datastore \<Rightarrow> datastore" where
  "abort db = db\<lparr>session := committed db\<rparr>"

definition eligible :: "attempt \<Rightarrow> bool" where
  "eligible a = (proceed_to_checkout a \<and> pending_checkout a)"

text \<open>
  \<open>pool.map(checkout_procedure, checkout_lst)\<close> over the rows of the unit of work,
  taken in order: the rows that were queried are processed, the others are left alone,
  and the first exception ends the map. The rows come back as the procedure left them.
  The list holds tuples of an attempt, the client and the connection; appending a tuple
  to a \<open>CheckoutList\<close> changes no attempt, since only an item that is itself an
  attempt gets \<open>queued_checkout\<close> set.
\<close>

fun pool_map :: "boundary \<Rightarrow> attempt list \<Rightarrow> exn option \<times> attempt list" where
  "pool_map b [] = (None, [])"
| "pool_map b (a # rows) =
     (if eligible a then
        (case checkout_procedure b a of
           (Some e, a') \<Rightarrow> (Some e, a' # rows)
         | (None, a') \<Rightarrow> (case pool_map b rows of (r, rows') \<Rightarrow> (r, a' # rows')))
      else (case pool_map b rows of (r, rows') \<Rightarrow> (r, a # rows')))"

text \<open>
  One pass of the body of the \<open>while True\<close> loop of \<open>main\<close>, up to the sleep: the
  exception that leaves the loop, if any, and the datastore.
\<close>

definition run_batch :: "boundary \<Rightarrow> datastore \<Rightarrow> exn option \<times> datastore" where
  "run_batch b db =
     (let attempts_checkout = filter eligible (session db) in
      if attempts_checkout = [] then (None, db)
      else
        case pool_map b (session db) of
          (None, rows) \<Rightarrow> (None, commit (db\<lparr>session := rows\<rparr>))
        | (Some e, rows) \<Rightarrow> (Some e, abort (db\<lparr>session := rows\<rparr>)))"

text \<open>
  The loop of \<open>main\<close>. It never ends by itself, so it is run for as many passes as
  the list \<open>arrivals\<close> is long: the rows other processes commit during each sleep.
  The result is the exception that left the loop (\<open>None\<close> while it is still running)
  and the datastore.
\<close>

fun main_loop :: "boundary \<Rightarrow> attempt list list \<Rightarrow> datastore \<Rightarrow> exn option \<times> datastore" where
  "main_loop b [] db = (None, db)"
| "main_loop b (new # arrivals) db =
     (case run_batch b db of
        (Some e, db') \<Rightarrow> (Some e, db')
      | (None, db') \<Rightarrow>
          main_loop b arrivals
            (db'\<lparr>committed := committed db' @ new, session := session db' @ new\<rparr>))"

text \<open>
  Example data: a package reader that finds one XML file, two PDF files (none in the
  package \<open>/in/nopdf.zip\<close>) and one image in every package, a static server that
  accepts every upload, a module \<open>utils\<close> that does define the two functions, and a
  metadata pipeline that fails on the package \<open>/in/bad.zip\<close>; an attempt that is
  ready for checkout; and a datastore with one such attempt for each of the given
  packages, nothing uncommitted.
\<close>

definition example_boundary :: boundary where
  "example_boundary =
     \<lparr>get_fps = (\<lambda>fp ext.
          if ext = ''xml'' then [\<lparr>name = ''a.xml'', content = ''<article/>''\<rparr>]
          else if ext = ''pdf'' then
            (if fp = ''/in/nopdf.zip'' then []
             else [\<lparr>name = ''a.pdf'', content = ''%PDF-a''\<rparr>,
                   \<lparr>name = ''b.pdf'', content = ''%PDF-b''\<rparr>])
          else if ext = ''tif'' then [\<lparr>name = ''f1.tif'', content = ''II*''\<rparr>]
          else []),
      send = (\<lambda>c p. Inr (''http://static/'' @ p)),
      get_static_path = Some (\<lambda>root a n. root @ ''/'' @ a @ ''/'' @ n),
      zip_files = Some (\<lambda>m. case m ''f1.tif'' of None \<Rightarrow> ''PK'' | Some v \<Rightarrow> ''PK'' @ v),
      extract_front = (\<lambda>fp. if fp = ''/in/bad.zip'' then Inl (OtherError ''no front'')
                              else Inr ''front''),
      articles_post = (\<lambda>d. None),
      now = 42\<rparr>"

definition example_attempt :: "nat \<Rightarrow> string \<Rightarrow> attempt" where
  "example_attempt n fp =
     \<lparr>attempt_id = n, filepath = fp, aid = ''aid1'', is_valid = Some True,
      proceed_to_checkout = True, pending_checkout = True, queued_checkout = True,
      checkout_started_at = None\<rparr>"

definition example_datastore :: "string list \<Rightarrow> datastore" where
  "example_datastore fps =
     \<lparr>committed = map (\<lambda>(n, fp). example_attempt n fp) (enumerate 1 fps),
      session = map (\<lambda>(n, fp). example_attempt n fp) (enumerate 1 fps)\<rparr>"

section \<open>Framed messages (utils.py)\<close>














section \<open>Substring search and slices\<close>

lemma find_sub_first:
  "i \<le> length s \<Longrightarrow> prefix sub (drop i s) \<Longrightarrow> (\<forall>j<i. \<not> prefix sub (drop j s)) \<Longrightarrow>
   find_sub sub s = Some i"
proof (induction s arbitrary: i)
  case Nil
  then show ?case by simp
next
  case (Cons c cs)
  show ?case
  proof (cases i)
    case 0
    with Cons.prems show ?thesis by simp
  next
    case (Suc k)
    have np: "\<not> prefix sub (c # cs)" using Cons.prems(3) Suc by force
    have "find_sub sub cs = Some k"
    proof (rule Cons.IH)
      show "k \<le> length cs" using Cons.prems(1) Suc by simp
      show "prefix sub (drop k cs)" using Cons.prems(2) Suc by simp
      show "\<forall>j<k. \<not> prefix sub (drop j cs)"
      proof (intro allI impI)
        fix j assume "j < k"
        then have "Suc j < i" using Suc by simp
        then have "\<not> prefix sub (drop (Suc j) (c # cs))" using Cons.prems(3) by blast
        then show "\<not> prefix sub (drop j cs)" by simp
      qed
    qed
    with np Suc show ?thesis by simp
  qed
qed

lemma find_sub_None_iff: "find_sub sub s = None \<longleftrightarrow> \<not> sublist sub s"
  by (induction s) (auto simp: sublist_Cons_right)

lemma contains_sublist: "contains sub s = sublist sub s"
  by (simp add: contains_def find_sub_None_iff)

lemma find_sub_char:
  "find_sub [c] s = (if c \<in> set s then Some (length (takeWhile (\<lambda>x. x \<noteq> c) s)) else None)"
  by (induction s) auto

lemma strict_prefix_butlast: "prefix us sub \<Longrightarrow> length us < length sub \<Longrightarrow> prefix us (butlast sub)"
  by (auto simp: prefix_def butlast_append)

lemma prefix_drop_sublist:
  assumes "prefix sub (drop j xs @ zs)"
  shows "sublist sub (xs @ zs)"
proof -
  from assms obtain t where t: "drop j xs @ zs = sub @ t"
    by (auto simp: prefix_def)
  have "xs @ zs = take j xs @ drop j xs @ zs" by simp
  then have "xs @ zs = take j xs @ sub @ t" using t by simp
  then show ?thesis unfolding sublist_def by blast
qed

lemma no_early_prefix:
  assumes ns: "\<not> sublist sub (xs @ butlast sub)" and j: "j < length xs" and py: "prefix sub ys"
  shows "\<not> prefix sub (drop j (xs @ ys))"
proof
  assume "prefix sub (drop j (xs @ ys))"
  then have p: "prefix sub (drop j xs @ ys)" using j by simp
  have ne: "drop j xs \<noteq> []" using j by simp
  from p consider "prefix sub (drop j xs)" | us where "sub = drop j xs @ us" "prefix us ys"
    by (auto simp: prefix_append)
  then have "prefix sub (drop j xs @ butlast sub)"
  proof cases
    case 1
    then show ?thesis by (rule prefix_prefix)
  next
    case 2
    have "length us < length sub" using 2(1) ne by simp
    moreover have "prefix us sub" using 2(2) py calculation
      by (metis prefix_length_prefix less_imp_le_nat)
    ultimately have "prefix us (butlast sub)" using strict_prefix_butlast by blast
    then show ?thesis using 2(1) by simp
  qed
  then have "sublist sub (xs @ butlast sub)" by (rule prefix_drop_sublist)
  then show False using ns by simp
qed

lemma find_sub_append:
  assumes "\<not> sublist sub (xs @ butlast sub)" "prefix sub ys"
  shows "find_sub sub (xs @ ys) = Some (length xs)"
proof (rule find_sub_first)
  show "length xs \<le> length (xs @ ys)" by simp
  show "prefix sub (drop (length xs) (xs @ ys))" using assms(2) by simp
  show "\<forall>j<length xs. \<not> prefix sub (drop j (xs @ ys))"
    using no_early_prefix[OF assms(1) _ assms(2)] by blast
qed


lemma clamp_index_nat: "i \<le> length s \<Longrightarrow> clamp_index s (int i) = i"
  by (simp add: clamp_index_def Let_def)

lemma slice_take: "i \<le> length s \<Longrightarrow> slice s 0 (int i) = take i s"
  using clamp_index_nat[of 0 s] clamp_index_nat[of i s] by (simp add: slice_def)

lemma slice_from_drop: "i \<le> length s \<Longrightarrow> slice_from s (int i) = drop i s"
  by (simp add: slice_from_def clamp_index_nat)

lemma length_lower [simp]: "length (lower s) = length s"
  by (simp add: lower_def)

lemma lower_append [simp]: "lower (xs @ ys) = lower xs @ lower ys"
  by (simp add: lower_def)

lemma lower_drop: "lower (drop j s) = drop j (lower s)"
  by (simp add: lower_def drop_map)

lemma prefix_lower: "prefix xs ys \<Longrightarrow> prefix (lower xs) (lower ys)"
  by (auto simp: prefix_def)

lemma lower_char_space [simp]: "lower_char (CHR '' '') = CHR '' ''"
  by (simp add: lower_char_def)

lemma marker_no_space:
  assumes "lower mk = ''sup''"
  shows "CHR '' '' \<notin> set mk"
proof
  assume "CHR '' '' \<in> set mk"
  then have "lower_char (CHR '' '') \<in> set (lower mk)"
    unfolding lower_def by (metis image_eqI set_map)
  then show False using assms by simp
qed

lemma find_marker:
  assumes "lower mk = ''sup''" "\<not> sublist ''sup'' (lower pre @ ''su'')"
  shows "find_sub ''sup'' (lower (pre @ mk @ rest)) = Some (length pre)"
proof -
  have "find_sub ''sup'' (lower pre @ (''sup'' @ lower rest)) = Some (length (lower pre))"
    by (rule find_sub_append) (use assms(2) in simp_all)
  then show ?thesis using assms(1) by simp
qed

lemma find_label:
  assumes mk: "lower mk = ''sup''" and first: "\<not> sublist ''sup'' (lower pre @ ''su'')"
    and pl: "prefix (mk @ t) (mk @ rest)"
  shows "find_sub (mk @ t) (pre @ mk @ rest) = Some (length pre)"
proof (rule find_sub_first)
  show "length pre \<le> length (pre @ mk @ rest)" by simp
  show "prefix (mk @ t) (drop (length pre) (pre @ mk @ rest))" using pl by simp
  show "\<forall>j<length pre. \<not> prefix (mk @ t) (drop j (pre @ mk @ rest))"
  proof (intro allI impI notI)
    fix j assume j: "j < length pre" and p: "prefix (mk @ t) (drop j (pre @ mk @ rest))"
    from p have "prefix (lower (mk @ t)) (lower (drop j (pre @ mk @ rest)))"
      by (rule prefix_lower)
    moreover have "lower (mk @ t) = ''sup'' @ lower t" using mk by simp
    moreover have "lower (drop j (pre @ mk @ rest)) = drop j (lower pre @ (''sup'' @ lower rest))"
      unfolding lower_drop using mk by simp
    ultimately have "prefix (''sup'' @ lower t) (drop j (lower pre @ (''sup'' @ lower rest)))"
      by metis
    then have "prefix ''sup'' (drop j (lower pre @ (''sup'' @ lower rest)))"
      using append_prefixD by blast
    moreover have "\<not> prefix ''sup'' (drop j (lower pre @ (''sup'' @ lower rest)))"
      by (rule no_early_prefix) (use first j in simp_all)
    ultimately show False by simp
  qed
qed


lemma label_cut:
  assumes "CHR '' '' \<notin> set mk"
  shows "(if contains '' '' (mk @ rest)
          then slice (mk @ rest) 0 (str_find (mk @ rest) '' '') else mk @ rest) =
         mk @ takeWhile (\<lambda>c. c \<noteq> CHR '' '') rest"
proof (cases "CHR '' '' \<in> set rest")
  case True
  have tw: "takeWhile (\<lambda>c. c \<noteq> CHR '' '') (mk @ rest) = mk @ takeWhile (\<lambda>c. c \<noteq> CHR '' '') rest"
    using assms by (intro takeWhile_append2) auto
  have "slice (mk @ rest) 0 (int (length (takeWhile (\<lambda>c. c \<noteq> CHR '' '') (mk @ rest)))) =
        take (length (takeWhile (\<lambda>c. c \<noteq> CHR '' '') (mk @ rest))) (mk @ rest)"
    by (rule slice_take) (rule length_takeWhile_le)
  also have "\<dots> = takeWhile (\<lambda>c. c \<noteq> CHR '' '') (mk @ rest)"
    by (rule takeWhile_eq_take[symmetric])
  finally show ?thesis using True tw
    by (simp add: contains_def str_find_def find_sub_char)
next
  case False
  have nc: "\<not> contains '' '' (mk @ rest)"
    using False assms by (simp add: contains_def find_sub_char)
  have tw: "takeWhile (\<lambda>c. c \<noteq> CHR '' '') rest = rest"
    by (rule takeWhile_eq_all_conv[THEN iffD2]) (use False in auto)
  show ?thesis by (simp only: nc if_False tw)
qed

lemma parse_marker:
  assumes mk: "lower mk = ''sup''" and first: "\<not> sublist ''sup'' (lower pre @ ''su'')"
  shows "parse_issue_tag (Some (pre @ mk @ rest)) =
     ((if strip (lower pre) = [] then None else Some (strip (lower pre))),
      Some (mk @ takeWhile (\<lambda>c. c \<noteq> CHR '' '') rest),
      (if strip (dropWhile (\<lambda>c. c \<noteq> CHR '' '') rest) = [] then None
       else Some (strip (dropWhile (\<lambda>c. c \<noteq> CHR '' '') rest))))"
proof -
  let ?text = "pre @ mk @ rest"
  let ?tw = "takeWhile (\<lambda>c. c \<noteq> CHR '' '') rest"
  let ?label = "mk @ ?tw"
  have ne: "?text \<noteq> []" using mk by (auto simp: lower_def)
  have fm: "find_sub ''sup'' (lower ?text) = Some (length pre)"
    using mk first by (rule find_marker)
  then have c: "contains ''sup'' (lower ?text)" and sf: "str_find (lower ?text) ''sup'' = int (length pre)"
    by (simp_all add: contains_def str_find_def)
  have n0: "slice (lower ?text) 0 (int (length pre)) = lower pre"
    by (subst slice_take) simp_all
  have l0: "slice_from ?text (int (length pre)) = mk @ rest"
    by (subst slice_from_drop) simp_all
  have lab: "(if contains '' '' (mk @ rest)
          then slice (mk @ rest) 0 (str_find (mk @ rest) '' '') else mk @ rest) = ?label"
    by (rule label_cut) (rule marker_no_space[OF mk])
  have "find_sub ?label ?text = Some (length pre)"
    by (rule find_label[OF mk first]) (simp add: prefix_def, metis takeWhile_dropWhile_id)
  then have fl: "str_find ?text ?label = int (length pre)"
    by (simp add: str_find_def)
  have "slice_from ?text (int (length pre + length ?label)) = drop (length pre + length ?label) ?text"
    by (rule slice_from_drop) (simp add: length_takeWhile_le)
  also have "\<dots> = drop (length ?tw) rest" by simp
  also have "\<dots> = dropWhile (\<lambda>c. c \<noteq> CHR '' '') rest"
    by (rule dropWhile_eq_drop[symmetric])
  finally have s0: "slice_from ?text (str_find ?text ?label + int (length ?label)) =
      dropWhile (\<lambda>c. c \<noteq> CHR '' '') rest"
    using fl by simp
  show ?thesis
    unfolding parse_issue_tag_def option.case Let_def
    using ne c by (simp only: if_False if_True sf n0 l0 lab s0)
qed

lemma parse_plain:
  assumes "s \<noteq> []" "\<not> sublist ''sup'' (lower s)"
  shows "parse_issue_tag (Some s) = (Some s, None, None)"
  using assms by (simp add: parse_issue_tag_def contains_def find_sub_None_iff)

section \<open>Theorems on issue designators\<close>

text \<open>
  C9. For absent input and for the empty text, issue-designator parsing returns all
  three components absent; the number is absent and not the empty string.
\<close>

theorem parse_issue_tag_empty:
  "parse_issue_tag None = (None, None, None) \<and>
   parse_issue_tag (Some '''') = (None, None, None) \<and>
   fst (parse_issue_tag (Some '''')) \<noteq> Some ''''"
  by (simp add: parse_issue_tag_def)

text \<open>
  C6. The claim is right and the code breaks it. In the marker case the number is
  sliced from the lower-cased copy of the text, while the label and the value are sliced
  from the text itself and the branch without a marker returns the text itself: the
  text \<open>3A\<close> gives the number \<open>3A\<close>, the text \<open>3A Suppl 1\<close> gives the number
  \<open>3a\<close>, which is not the text that precedes the marker. The four examples of the
  specification, which have no capital before the marker, come out as it says.
\<close>

theorem parse_issue_tag_number_lowered:
  "parse_issue_tag (Some ''3A Suppl 1'') = (Some ''3a'', Some ''Suppl'', Some ''1'') \<and>
   strip ''3A '' = ''3A'' \<and>
   fst (parse_issue_tag (Some ''3A Suppl 1'')) \<noteq> Some (strip ''3A '') \<and>
   parse_issue_tag (Some ''3A'') = (Some ''3A'', None, None) \<and>
   parse_issue_tag (Some ''2'') = (Some ''2'', None, None) \<and>
   parse_issue_tag (Some ''Suppl'') = (None, Some ''Suppl'', None) \<and>
   parse_issue_tag (Some ''3 Suppl 1'') = (Some ''3'', Some ''Suppl'', Some ''1'') \<and>
   parse_issue_tag (Some ''Suppl 1'') = (None, Some ''Suppl'', Some ''1'')"
  by code_simp

text \<open>
  C7, as the code has it. The supplement goes to the number axis when the number is
  present and not empty, and to the volume axis otherwise. At most one component of the
  pair is present: exactly one when a supplement is given, none when it is absent.
\<close>

theorem supplement_type_axis:
  "(truthy number \<longrightarrow> supplement_type volume number suppl = (None, suppl)) \<and>
   (\<not> truthy number \<longrightarrow> supplement_type volume number suppl = (suppl, None)) \<and>
   (suppl \<noteq> None \<longrightarrow>
      (fst (supplement_type volume number suppl) = None) \<noteq>
      (snd (supplement_type volume number suppl) = None)) \<and>
   (suppl = None \<longrightarrow> supplement_type volume number suppl = (None, None))"
  by (simp add: supplement_type_def)

theorem supplement_type_axis_witness:
  "truthy (Some ''2'') \<and> Some ''1'' \<noteq> (None :: string option) \<and>
   supplement_type (Some ''10'') (Some ''2'') (Some ''1'') = (None, Some ''1'') \<and>
   \<not> truthy None \<and>
   supplement_type (Some ''10'') None (Some ''1'') = (Some ''1'', None) \<and>
   supplement_type (Some ''10'') None None = (None, None)"
proof -
  have t: "truthy (Some ''2'')" and f: "\<not> truthy None"
    by (simp_all add: truthy_def)
  show ?thesis
    using supplement_type_axis[of "Some ''2''" "Some ''10''" "Some ''1''"]
      supplement_type_axis[of None "Some ''10''" "Some ''1''"]
      supplement_type_axis[of None "Some ''10''" None] t f
    by simp
qed

text \<open>
  C7 as it is written fails when no supplement is given: both components of the pair
  are absent, not exactly one.
\<close>

theorem supplement_type_both_absent:
  "supplement_type (Some ''1'') (Some ''2'') None = (None, None)"
  by (simp add: supplement_type_def truthy_def)

section \<open>Theorems on ISSN validation\<close>

lemma space_not_digit: "is_space v \<Longrightarrow> \<not> is_digit v"
  by (auto simp: is_space_def is_digit_def)

lemma strip_single: "strip [v] = (if is_space v then [] else [v])"
  by (simp add: strip_def)

lemma py_int_char:
  "py_int [v] = (if is_digit v then Inr (int (digit_value v)) else Inl invalid_literal)"
proof (cases "is_space v")
  case True
  then show ?thesis using space_not_digit[of v] by (simp add: py_int_def strip_single)
next
  case False
  have "\<not> is_digit (CHR ''-'')" "\<not> is_digit (CHR ''+'')" by (simp_all add: is_digit_def)
  with False show ?thesis
    by (auto simp: py_int_def strip_single digits_value_def)
qed

lemma sum_upt_shift:
  "sum_list (map f [0..<Suc n]) = f 0 + sum_list (map (\<lambda>k. f (Suc k)) [0..<n])"
proof -
  have "[0..<Suc n] = 0 # map Suc [0..<n]"
    by (simp add: upt_conv_Cons map_Suc_upt del: upt_Suc)
  then show ?thesis by (simp add: comp_def del: upt_Suc)
qed

lemma weighted_total_digits:
  "list_all is_digit ds \<Longrightarrow>
   weighted_total tot i ds =
     Inr (tot + sum_list (map (\<lambda>k. (8 - (i + int k)) * int (digit_value (ds ! k))) [0..<length ds]))"
proof (induction ds arbitrary: tot i)
  case Nil
  then show ?case by simp
next
  case (Cons v vs)
  then have v: "is_digit v" and vs: "list_all is_digit vs" by simp_all
  have "weighted_total tot i (v # vs) = weighted_total (tot + (8 - i) * int (digit_value v)) (i + 1) vs"
    using v by (simp add: py_int_char)
  also have "\<dots> = Inr (tot + (8 - i) * int (digit_value v) +
      sum_list (map (\<lambda>k. (8 - (i + 1 + int k)) * int (digit_value (vs ! k))) [0..<length vs]))"
    by (rule Cons.IH[OF vs])
  also have "\<dots> = Inr (tot + sum_list (map (\<lambda>k. (8 - (i + int k)) * int (digit_value ((v # vs) ! k)))
      [0..<length (v # vs)]))"
    unfolding length_Cons sum_upt_shift by (simp add: algebra_simps)
  finally show ?case .
qed

lemma weighted_total_non_digit:
  "\<not> list_all is_digit ds \<Longrightarrow> weighted_total tot i ds = Inl invalid_literal"
  by (induction ds arbitrary: tot i) (auto simp: py_int_char)

lemma calc_check_digit_issn_eq:
  "calc_check_digit_issn issn =
     (if list_all is_digit (butlast (filter (\<lambda>c. c \<noteq> CHR ''-'') issn))
      then Inr (spec_check_digit (butlast (filter (\<lambda>c. c \<noteq> CHR ''-'') issn)))
      else Inl invalid_literal)"
  by (simp add: calc_check_digit_issn_def spec_check_digit_def Let_def
      weighted_total_digits weighted_total_non_digit)

lemma one_hyphen_first_seven:
  assumes "length s = 9" "length (filter (\<lambda>c. c = CHR ''-'') s) = 1"
  shows "butlast (filter (\<lambda>c. c \<noteq> CHR ''-'') s) = take 7 (filter (\<lambda>c. c \<noteq> CHR ''-'') s)"
proof -
  have "length (filter (\<lambda>c. c = CHR ''-'') s) + length (filter (\<lambda>c. \<not> c = CHR ''-'') s) = length s"
    by (rule sum_length_filter_compl)
  then have "length (filter (\<lambda>c. c \<noteq> CHR ''-'') s) = 8" using assms by simp
  then show ?thesis by (simp add: butlast_conv_take)
qed


text \<open>
  The checks come in order: a value that is not text is a type error, a text whose
  length is not 9 is a length error, a text of length 9 without a hyphen is a format
  error. For a text of length 9 with exactly one hyphen the code does what the
  specification says: a character among the first seven left that is not a digit makes
  the digit conversion raise, and otherwise the check digit over these seven decides
  between the ISSN and the check-digit error.
\<close>

lemma validate_issn_structure:
  "(\<forall>t. v \<noteq> PyStr t) \<Longrightarrow> validate_issn v = Inl (TypeError ''Invalid type'')"
  "length s \<noteq> 9 \<Longrightarrow> validate_issn (PyStr s) = Inl (ValueError ''Invalid length'')"
  "length s = 9 \<Longrightarrow> CHR ''-'' \<notin> set s \<Longrightarrow>
     validate_issn (PyStr s) = Inl (ValueError ''Invalid format'')"
  by (cases v) (simp_all add: validate_issn_def)

lemma validate_issn_one_hyphen:
  assumes "length s = 9" "length (filter (\<lambda>c. c = CHR ''-'') s) = 1"
  shows "validate_issn (PyStr s) =
     (if list_all is_digit (take 7 (filter (\<lambda>c. c \<noteq> CHR ''-'') s))
      then (if spec_check_digit (take 7 (filter (\<lambda>c. c \<noteq> CHR ''-'') s)) = [last s]
            then Inr s else Inl (ValueError ''Invaid ISSN''))
      else Inl invalid_literal)"
proof -
  have "filter (\<lambda>c. c = CHR ''-'') s \<noteq> []" using assms(2) by auto
  then have h: "CHR ''-'' \<in> set s" by (auto simp: filter_empty_conv)
  show ?thesis
    using assms(1) h one_hyphen_first_seven[OF assms]
    by (simp add: validate_issn_def calc_check_digit_issn_eq)
qed

text \<open>
  C4. The claim is right and the code breaks it. The format check is only that the
  text contains a hyphen, and the sum leaves out the last character left after every
  hyphen is removed. The text \<open>1000-00-3\<close>, with two hyphens, is therefore returned
  as a valid ISSN, although the check digit over the first seven characters left is
  \<open>8\<close> and the final character is \<open>3\<close>. The text \<open>0102-6720\<close> validates with
  check digit \<open>0\<close>.
\<close>

theorem validate_issn_two_hyphens:
  "validate_issn (PyStr ''1000-00-3'') = Inr ''1000-00-3'' \<and>
   spec_check_digit (take 7 (filter (\<lambda>c. c \<noteq> CHR ''-'') ''1000-00-3'')) = ''8'' \<and>
   [last ''1000-00-3''] = ''3'' \<and>
   calc_check_digit_issn ''0102-6720'' = Inr ''0'' \<and>
   validate_issn (PyStr ''0102-6720'') = Inr ''0102-6720''"
  by code_simp

text \<open>
  C10. The claim is right and the code breaks it, by the same defect as for C4. In the
  text \<open>7000-00-X\<close>, with two hyphens, the \<open>X\<close> is among the first seven
  characters left and is not a digit, yet it is the last of them and is never
  converted: the text is returned as valid and \<open>is_valid_issn\<close> is true. With one
  hyphen, as in \<open>01a2-6720\<close>, the digit conversion raises its value error, which is
  none of the four named errors, and \<open>is_valid_issn\<close> is false.
\<close>

theorem validate_issn_trailing_x:
  "length ''7000-00-X'' = 9 \<and> CHR ''-'' \<in> set ''7000-00-X'' \<and>
   \<not> list_all is_digit (take 7 (filter (\<lambda>c. c \<noteq> CHR ''-'') ''7000-00-X'')) \<and>
   validate_issn (PyStr ''7000-00-X'') = Inr ''7000-00-X'' \<and>
   is_valid_issn (PyStr ''7000-00-X'') = Inr True \<and>
   validate_issn (PyStr ''01a2-6720'') = Inl invalid_literal \<and>
   is_valid_issn (PyStr ''01a2-6720'') = Inr False \<and>
   invalid_literal \<notin> set [TypeError ''Invalid type'', ValueError ''Invalid length'',
             ValueError ''Invalid format'', ValueError ''Invaid ISSN'']"
  by code_simp

section \<open>Theorems on terminating child processes\<close>

text \<open>
  C2. The claim is right and the code breaks it: \<open>not p.poll()\<close> holds for a child
  that has exited with status 0 as it does for a running one, so such a child is waited
  for through all ten tries and then killed. A child that never exits is killed after
  ten sleeps, a child that reports a non-zero status is left alone, and the children
  are taken in reverse order.
\<close>

theorem terminate_kills_clean_exit:
  "terminate [\<lparr>pid = 7, poll = (\<lambda>k. Some 0)\<rparr>] =
     [Terminate 7, Sleep, Sleep, Sleep, Sleep, Sleep, Sleep, Sleep, Sleep, Sleep, Sleep, Kill 7] \<and>
   terminate [\<lparr>pid = 7, poll = (\<lambda>k. None)\<rparr>] =
     [Terminate 7, Sleep, Sleep, Sleep, Sleep, Sleep, Sleep, Sleep, Sleep, Sleep, Sleep, Kill 7] \<and>
   terminate [\<lparr>pid = 7, poll = (\<lambda>k. Some (- 15))\<rparr>] = [Terminate 7] \<and>
   terminate [\<lparr>pid = 7, poll = (\<lambda>k. Some (- 15))\<rparr>,
              \<lparr>pid = 8, poll = (\<lambda>k. if k < 2 then None else Some 1)\<rparr>] =
     [Terminate 8, Sleep, Sleep, Terminate 7]"
  by (simp add: terminate_def terminate_child_def not_poll_def eval_nat_numeral)

section \<open>Theorems on the validation stage\<close>

text \<open>
  C8. An item, bare attempt or 4-tuple, whose attempt's validity flag is not true goes
  through \<open>transform\<close> unchanged, and the stage does nothing: \<open>validate\<close> is not
  called, no savepoint is opened and nothing is told to the notifier.
\<close>

theorem transform_skips_invalid:
  "is_valid a \<noteq> Some True \<longrightarrow>
     transform self (Bare a) = (Inr (Bare a), []) \<and>
     transform self (Tuple4 a pkg_analyzer journal_data db_session) =
       (Inr (Tuple4 a pkg_analyzer journal_data db_session), []) \<and>
     (\<forall>i. Validate_called i \<notin> set (snd (transform self (Bare a)))) \<and>
     (\<forall>i. Validate_called i \<notin>
           set (snd (transform self (Tuple4 a pkg_analyzer journal_data db_session))))"
  by (simp add: transform_def precondition_def attempt_is_valid_def)

theorem transform_skips_invalid_witness:
  "is_valid \<lparr>attempt_id = 1, filepath = ''/p/a.zip'', aid = ''x1'', is_valid = Some False,
        proceed_to_checkout = False, pending_checkout = False, queued_checkout = False,
        checkout_started_at = None\<rparr> \<noteq> Some True \<and>
   transform \<lparr>validate = (\<lambda>i. Inr (''ok'', ''fine'')), tell = (\<lambda>a s d st l. None),
        stage_label = ''Checkin''\<rparr>
     (Tuple4 \<lparr>attempt_id = 1, filepath = ''/p/a.zip'', aid = ''x1'', is_valid = Some False,
        proceed_to_checkout = False, pending_checkout = False, queued_checkout = False,
        checkout_started_at = None\<rparr> ''pkg'' ''journal'' 3) =
   (Inr (Tuple4 \<lparr>attempt_id = 1, filepath = ''/p/a.zip'', aid = ''x1'', is_valid = Some False,
        proceed_to_checkout = False, pending_checkout = False, queued_checkout = False,
        checkout_started_at = None\<rparr> ''pkg'' ''journal'' 3), []) \<and>
   transform \<lparr>validate = (\<lambda>i. Inr (''ok'', ''fine'')), tell = (\<lambda>a s d st l. None),
        stage_label = ''Checkin''\<rparr>
     (Bare \<lparr>attempt_id = 1, filepath = ''/p/a.zip'', aid = ''x1'', is_valid = Some False,
        proceed_to_checkout = False, pending_checkout = False, queued_checkout = False,
        checkout_started_at = None\<rparr>) =
   (Inr (Bare \<lparr>attempt_id = 1, filepath = ''/p/a.zip'', aid = ''x1'', is_valid = Some False,
        proceed_to_checkout = False, pending_checkout = False, queued_checkout = False,
        checkout_started_at = None\<rparr>), [])"
  using transform_skips_invalid[of
      "\<lparr>attempt_id = 1, filepath = ''/p/a.zip'', aid = ''x1'', is_valid = Some False,
        proceed_to_checkout = False, pending_checkout = False, queued_checkout = False,
        checkout_started_at = None\<rparr>"
      "\<lparr>validate = (\<lambda>i. Inr (''ok'', ''fine'')), tell = (\<lambda>a s d st l. None),
        stage_label = ''Checkin''\<rparr>" "''pkg''" "''journal''" 3]
  by simp

section \<open>Theorems on checkout\<close>

text \<open>
  C5. The claim is right and the code breaks it. \<open>upload_static_files\<close> calls
  \<open>utils.get_static_path\<close> and \<open>utils.zip_files\<close>, which the module \<open>utils\<close> of
  the sources does not define: with that module the function raises an
  \<open>AttributeError\<close> for every attempt, at the first XML or PDF entry or, when the
  package has none, at the zip archive, and returns no map. So does the checkout of the
  attempt.
\<close>

theorem upload_static_files_attribute_error:
  "upload_static_files (with_source_utils b) attempt =
     Inl (AttributeError
       (if get_static b attempt ''xml'' = [] \<and> get_static b attempt ''pdf'' = []
        then ''zip_files'' else ''get_static_path'')) \<and>
   fst (checkout_procedure (with_source_utils b) attempt) =
     Some (AttributeError
       (if get_static b attempt ''xml'' = [] \<and> get_static b attempt ''pdf'' = []
        then ''zip_files'' else ''get_static_path'')) \<and>
   upload_static_files (with_source_utils example_boundary) (example_attempt 1 ''/in/ok.zip'') =
     Inl (AttributeError ''get_static_path'')"
proof -
  have g: "\<And>a ext. get_static (with_source_utils b) a ext = get_static b a ext"
    by (simp add: get_static_def with_source_utils_def)
  have e: "\<And>a ext fs st. fs \<noteq> [] \<Longrightarrow>
      send_entries (with_source_utils b) a ext fs st = Inl (AttributeError ''get_static_path'')"
  proof -
    fix a ext and fs :: "static_file list"
      and st :: "(string \<rightharpoonup> string) \<times> (string \<times> string) list"
    assume "fs \<noteq> []"
    then obtain f rest where "fs = f # rest" by (cases fs) auto
    then show "send_entries (with_source_utils b) a ext fs st =
        Inl (AttributeError ''get_static_path'')"
      by (cases st) (simp add: utils_attr_def with_source_utils_def)
  qed
  have u: "\<And>a. upload_static_files (with_source_utils b) a =
     Inl (AttributeError
       (if get_static b a ''xml'' = [] \<and> get_static b a ''pdf'' = []
        then ''zip_files'' else ''get_static_path''))"
  proof -
    fix a
    show "upload_static_files (with_source_utils b) a =
     Inl (AttributeError
       (if get_static b a ''xml'' = [] \<and> get_static b a ''pdf'' = []
        then ''zip_files'' else ''get_static_path''))"
    proof (cases "get_static b a ''xml'' = []")
      case False
      then show ?thesis
        by (simp add: upload_static_files_def FILES_EXTENSION_def g e)
    next
      case True
      note x = this
      show ?thesis
      proof (cases "get_static b a ''pdf'' = []")
        case False
        with x show ?thesis
          by (simp add: upload_static_files_def FILES_EXTENSION_def g e)
      next
        case True
        have z: "utils_attr (zip_files (with_source_utils b)) ''zip_files'' =
            Inl (AttributeError ''zip_files'')"
          by (simp add: utils_attr_def with_source_utils_def)
        from x True show ?thesis
          by (simp add: upload_static_files_def FILES_EXTENSION_def g Let_def z)
      qed
    qed
  qed
  have gs: "\<And>ext. get_static b (attempt\<lparr>checkout_started_at := Some (now (with_source_utils b))\<rparr>) ext =
      get_static b attempt ext"
    by (simp add: get_static_def)
  have c: "fst (checkout_procedure (with_source_utils b) attempt) =
     Some (AttributeError
       (if get_static b attempt ''xml'' = [] \<and> get_static b attempt ''pdf'' = []
        then ''zip_files'' else ''get_static_path''))"
    unfolding checkout_procedure_def Let_def u gs by simp
  have x: "upload_static_files (with_source_utils example_boundary)
      (example_attempt 1 ''/in/ok.zip'') = Inl (AttributeError ''get_static_path'')"
    by (simp add: upload_static_files_def FILES_EXTENSION_def get_static_def utils_attr_def
        with_source_utils_def example_boundary_def example_attempt_def)
  show ?thesis using u[of attempt] c x by simp
qed

lemma checkout_procedure_ok:
  "fst (checkout_procedure b a) = None \<Longrightarrow>
   snd (checkout_procedure b a) =
     a\<lparr>checkout_started_at := Some (now b), queued_checkout := False\<rparr>"
  by (auto simp: checkout_procedure_def Let_def split: sum.splits option.splits prod.splits)

lemma pool_map_all_ok:
  "(\<forall>a\<in>set rows. eligible a \<longrightarrow> fst (checkout_procedure b a) = None) \<Longrightarrow>
   pool_map b rows =
     (None, map (\<lambda>a. if eligible a
                     then a\<lparr>checkout_started_at := Some (now b), queued_checkout := False\<rparr>
                     else a) rows)"
proof (induction rows)
  case Nil
  then show ?case by simp
next
  case (Cons a rows)
  then have IH: "pool_map b rows =
     (None, map (\<lambda>a. if eligible a
                     then a\<lparr>checkout_started_at := Some (now b), queued_checkout := False\<rparr>
                     else a) rows)"
    by simp
  show ?case
  proof (cases "eligible a")
    case True
    then have f: "fst (checkout_procedure b a) = None" using Cons.prems by simp
    then have "checkout_procedure b a =
        (None, a\<lparr>checkout_started_at := Some (now b), queued_checkout := False\<rparr>)"
      using checkout_procedure_ok[OF f] by (cases "checkout_procedure b a") simp
    with True IH show ?thesis by simp
  next
    case False
    with IH show ?thesis by simp
  qed
qed

lemma pool_map_fails:
  "\<exists>a\<in>set rows. eligible a \<and> fst (checkout_procedure b a) \<noteq> None \<Longrightarrow>
   \<exists>e rows'. pool_map b rows = (Some e, rows') \<and>
     (\<exists>a\<in>set rows. eligible a \<and> fst (checkout_procedure b a) = Some e)"
proof (induction rows)
  case Nil
  then show ?case by simp
next
  case (Cons a rows)
  show ?case
  proof (cases "eligible a \<and> fst (checkout_procedure b a) \<noteq> None")
    case True
    then obtain e a' where "checkout_procedure b a = (Some e, a')"
      by (cases "checkout_procedure b a") auto
    with True show ?thesis by auto
  next
    case False
    with Cons.prems have "\<exists>a\<in>set rows. eligible a \<and> fst (checkout_procedure b a) \<noteq> None"
      by auto
    from Cons.IH[OF this] obtain e rows' where
      r: "pool_map b rows = (Some e, rows')"
      and w: "\<exists>a\<in>set rows. eligible a \<and> fst (checkout_procedure b a) = Some e"
      by blast
    show ?thesis
    proof (cases "eligible a")
      case True
      with False have "fst (checkout_procedure b a) = None" by simp
      then obtain a' where "checkout_procedure b a = (None, a')"
        by (cases "checkout_procedure b a") auto
      with True r w show ?thesis by auto
    next
      case False
      with r w show ?thesis by auto
    qed
  qed
qed

lemma run_batch_fails:
  assumes "\<exists>a\<in>set (session db). eligible a \<and> fst (checkout_procedure b a) \<noteq> None"
  shows "\<exists>e. run_batch b db = (Some e, db\<lparr>session := committed db\<rparr>) \<and>
    (\<exists>a\<in>set (session db). eligible a \<and> fst (checkout_procedure b a) = Some e)"
proof -
  from pool_map_fails[OF assms] obtain e rows' where
    r: "pool_map b (session db) = (Some e, rows')"
    and w: "\<exists>a\<in>set (session db). eligible a \<and> fst (checkout_procedure b a) = Some e"
    by blast
  have "filter eligible (session db) \<noteq> []" using assms by (auto simp: filter_empty_conv)
  then have "run_batch b db = (Some e, db\<lparr>session := committed db\<rparr>)"
    using r by (simp add: run_batch_def abort_def)
  with w show ?thesis by blast
qed

lemma run_batch_commits:
  assumes "\<exists>a\<in>set (session db). eligible a"
    and "\<forall>a\<in>set (session db). eligible a \<longrightarrow> fst (checkout_procedure b a) = None"
  shows "run_batch b db =
    (None, db\<lparr>committed := map (\<lambda>a. if eligible a
                     then a\<lparr>checkout_started_at := Some (now b), queued_checkout := False\<rparr>
                     else a) (session db),
              session := map (\<lambda>a. if eligible a
                     then a\<lparr>checkout_started_at := Some (now b), queued_checkout := False\<rparr>
                     else a) (session db)\<rparr>)"
proof -
  have "filter eligible (session db) \<noteq> []" using assms(1) by (auto simp: filter_empty_conv)
  then show ?thesis
    using pool_map_all_ok[OF assms(2)] by (simp add: run_batch_def commit_def)
qed

text \<open>
  C1. In a pass of the run loop over a batch in which the checkout of some attempt
  raises, the loop ends with the exception of an attempt of the batch, whatever would
  have come later, and the unit of work is aborted: the committed rows are what they
  were, and the unit of work holds them again, so no change of the batch, the clearing
  of \<open>queued_checkout\<close> included, is committed. In a pass over a batch in which no
  checkout raises the whole batch is committed: every attempt of the batch has its
  start time set and \<open>queued_checkout\<close> cleared, in the committed rows.
\<close>

theorem run_batch_all_or_nothing:
  "((\<exists>a\<in>set (session db). eligible a \<and> fst (checkout_procedure b a) \<noteq> None) \<longrightarrow>
      (\<exists>e. run_batch b db = (Some e, db\<lparr>session := committed db\<rparr>) \<and>
            main_loop b (new # arrivals) db = (Some e, db\<lparr>session := committed db\<rparr>) \<and>
            committed (snd (run_batch b db)) = committed db \<and>
            (\<exists>a\<in>set (session db). eligible a \<and> fst (checkout_procedure b a) = Some e))) \<and>
   ((\<exists>a\<in>set (session db). eligible a) \<and>
    (\<forall>a\<in>set (session db). eligible a \<longrightarrow> fst (checkout_procedure b a) = None) \<longrightarrow>
      fst (run_batch b db) = None \<and>
      committed (snd (run_batch b db)) =
        map (\<lambda>a. if eligible a
                  then a\<lparr>checkout_started_at := Some (now b), queued_checkout := False\<rparr>
                  else a) (session db) \<and>
      session (snd (run_batch b db)) = committed (snd (run_batch b db)))"
proof (intro conjI impI)
  assume "\<exists>a\<in>set (session db). eligible a \<and> fst (checkout_procedure b a) \<noteq> None"
  from run_batch_fails[OF this] obtain e where
    r: "run_batch b db = (Some e, db\<lparr>session := committed db\<rparr>)"
    and w: "\<exists>a\<in>set (session db). eligible a \<and> fst (checkout_procedure b a) = Some e"
    by blast
  have "main_loop b (new # arrivals) db = (Some e, db\<lparr>session := committed db\<rparr>)"
    using r by simp
  moreover have "committed (snd (run_batch b db)) = committed db" using r by simp
  ultimately show "\<exists>e. run_batch b db = (Some e, db\<lparr>session := committed db\<rparr>) \<and>
            main_loop b (new # arrivals) db = (Some e, db\<lparr>session := committed db\<rparr>) \<and>
            committed (snd (run_batch b db)) = committed db \<and>
            (\<exists>a\<in>set (session db). eligible a \<and> fst (checkout_procedure b a) = Some e)"
    using r w by blast
next
  assume a: "(\<exists>a\<in>set (session db). eligible a) \<and>
    (\<forall>a\<in>set (session db). eligible a \<longrightarrow> fst (checkout_procedure b a) = None)"
  then have r: "run_batch b db =
    (None, db\<lparr>committed := map (\<lambda>a. if eligible a
                     then a\<lparr>checkout_started_at := Some (now b), queued_checkout := False\<rparr>
                     else a) (session db),
              session := map (\<lambda>a. if eligible a
                     then a\<lparr>checkout_started_at := Some (now b), queued_checkout := False\<rparr>
                     else a) (session db)\<rparr>)"
    using run_batch_commits by blast
  show "fst (run_batch b db) = None" using r by simp
  show "committed (snd (run_batch b db)) =
        map (\<lambda>a. if eligible a
                  then a\<lparr>checkout_started_at := Some (now b), queued_checkout := False\<rparr>
                  else a) (session db)"
    using r by simp
  show "session (snd (run_batch b db)) = committed (snd (run_batch b db))"
    using r by simp
qed


theorem run_batch_all_or_nothing_witness:
  "(\<exists>a\<in>set (session (example_datastore [''/in/a.zip'', ''/in/bad.zip'', ''/in/c.zip''])).
      eligible a \<and> fst (checkout_procedure example_boundary a) \<noteq> None) \<and>
   run_batch example_boundary (example_datastore [''/in/a.zip'', ''/in/bad.zip'', ''/in/c.zip'']) =
     (Some (OtherError ''no front''),
      example_datastore [''/in/a.zip'', ''/in/bad.zip'', ''/in/c.zip'']) \<and>
   main_loop example_boundary [[], []]
      (example_datastore [''/in/a.zip'', ''/in/bad.zip'', ''/in/c.zip'']) =
     (Some (OtherError ''no front''),
      example_datastore [''/in/a.zip'', ''/in/bad.zip'', ''/in/c.zip'']) \<and>
   (\<exists>a\<in>set (session (example_datastore [''/in/a.zip'', ''/in/c.zip''])). eligible a) \<and>
   fst (run_batch example_boundary (example_datastore [''/in/a.zip'', ''/in/c.zip''])) = None \<and>
   map queued_checkout
     (committed (snd (run_batch example_boundary
        (example_datastore [''/in/a.zip'', ''/in/c.zip''])))) = [False, False] \<and>
   map checkout_started_at
     (committed (snd (run_batch example_boundary
        (example_datastore [''/in/a.zip'', ''/in/c.zip''])))) = [Some 42, Some 42]"
proof -
  let ?bad = "example_datastore [''/in/a.zip'', ''/in/bad.zip'', ''/in/c.zip'']"
  let ?good = "example_datastore [''/in/a.zip'', ''/in/c.zip'']"
  have rows_bad: "session ?bad = [example_attempt 1 ''/in/a.zip'',
      example_attempt 2 ''/in/bad.zip'', example_attempt 3 ''/in/c.zip'']"
    and same_bad: "?bad\<lparr>session := committed ?bad\<rparr> = ?bad"
    and rows_good: "session ?good = [example_attempt 1 ''/in/a.zip'',
      example_attempt 2 ''/in/c.zip'']"
    by (simp_all add: example_datastore_def enumerate_eq_zip upt_conv_Cons eval_nat_numeral)
  have el: "\<And>n fp. eligible (example_attempt n fp)"
    by (simp add: eligible_def example_attempt_def)
  have ok: "\<And>n fp. fp \<noteq> ''/in/bad.zip'' \<Longrightarrow> fp \<noteq> ''/in/nopdf.zip'' \<Longrightarrow>
      fst (checkout_procedure example_boundary (example_attempt n fp)) = None"
    by (simp add: checkout_procedure_def upload_static_files_def upload_meta_front_def
        getitem_def FILES_EXTENSION_def IMAGES_EXTENSION_def STATIC_PATH_def NAME_ZIP_FILE_def
        collect_images_def get_static_def example_boundary_def example_attempt_def Let_def
        utils_attr_def)
  have bad: "\<And>n. fst (checkout_procedure example_boundary (example_attempt n ''/in/bad.zip'')) =
      Some (OtherError ''no front'')"
    by (simp add: checkout_procedure_def upload_static_files_def upload_meta_front_def
        getitem_def FILES_EXTENSION_def IMAGES_EXTENSION_def STATIC_PATH_def NAME_ZIP_FILE_def
        collect_images_def get_static_def example_boundary_def example_attempt_def Let_def
        utils_attr_def)
  have h1: "\<exists>a\<in>set (session ?bad). eligible a \<and>
      fst (checkout_procedure example_boundary a) \<noteq> None"
    unfolding rows_bad using el bad by simp
  have h2: "(\<exists>a\<in>set (session ?good). eligible a) \<and>
      (\<forall>a\<in>set (session ?good). eligible a \<longrightarrow>
         fst (checkout_procedure example_boundary a) = None)"
    unfolding rows_good using el ok by simp
  from run_batch_all_or_nothing[of ?bad example_boundary "[]" "[[]]"] h1
  obtain e where r: "run_batch example_boundary ?bad = (Some e, ?bad\<lparr>session := committed ?bad\<rparr>)"
    and m: "main_loop example_boundary [[], []] ?bad = (Some e, ?bad\<lparr>session := committed ?bad\<rparr>)"
    and w: "\<exists>a\<in>set (session ?bad). eligible a \<and> fst (checkout_procedure example_boundary a) = Some e"
    by blast
  from w have e: "e = OtherError ''no front''"
    unfolding rows_bad using ok bad by auto
  from run_batch_all_or_nothing[of ?good example_boundary "[]" "[]"] h2
  have g1: "fst (run_batch example_boundary ?good) = None"
    and g2: "committed (snd (run_batch example_boundary ?good)) =
        map (\<lambda>a. if eligible a
                  then a\<lparr>checkout_started_at := Some (now example_boundary),
                         queued_checkout := False\<rparr>
                  else a) (session ?good)"
    by blast+
  have n: "now example_boundary = 42" by (simp add: example_boundary_def)
  have g3: "map queued_checkout (committed (snd (run_batch example_boundary ?good))) = [False, False]"
    and g4: "map checkout_started_at (committed (snd (run_batch example_boundary ?good))) =
      [Some 42, Some 42]"
    unfolding g2 rows_good using el n by simp_all
  show ?thesis
    using h1 h2 r m g1 g3 g4 unfolding e same_bad by blast
qed

section \<open>Theorems on framed messages\<close>






















end
